theory Spec2Isabelle
  imports Main
begin

section \<open>Strings of the JavaScript runtime\<close>

text \<open>
  Strings are \<^typ>\<open>string\<close>, one \<^typ>\<open>char\<close> per ASCII character. The operations
  below are the built-ins that \<^verbatim>\<open>plugins.ts\<close> calls, on ASCII text.
\<close>

definition upper_chars :: string where
  "upper_chars = ''ABCDEFGHIJKLMNOPQRSTUVWXYZ''"

definition lower_chars :: string where
  "lower_chars = ''abcdefghijklmnopqrstuvwxyz''"

text \<open>\<^verbatim>\<open>String.prototype.toLowerCase\<close>, character by character.\<close>

definition lowerChar :: "char \<Rightarrow> char" where
  "lowerChar c = (case map_of (zip upper_chars lower_chars) c of Some l \<Rightarrow> l | None \<Rightarrow> c)"

definition toLowerCase :: "string \<Rightarrow> string" where
  "toLowerCase s = map lowerChar s"

text \<open>
  White space as \<^verbatim>\<open>\s\<close> and \<^verbatim>\<open>trim\<close> see it: space, tab, line feed, vertical tab,
  form feed, carriage return.
\<close>

definition isSpace :: "char \<Rightarrow> bool" where
  "isSpace c = (c \<in> set [CHR 0x20, CHR 0x09, CHR 0x0A, CHR 0x0B, CHR 0x0C, CHR 0x0D])"

text \<open>\<^verbatim>\<open>String.prototype.trim\<close>.\<close>

definition trim :: "string \<Rightarrow> string" where
  "trim s = rev (dropWhile isSpace (rev (dropWhile isSpace s)))"

text \<open>
  \<^verbatim>\<open>s.split(c)\<close> for a one-character separator: every occurrence separates, empty
  pieces are kept, and the empty string gives one empty piece.
\<close>

fun split_on :: "char \<Rightarrow> string \<Rightarrow> string list" where
  "split_on c [] = [[]]"
| "split_on c (x # xs) =
     (if x = c then [] # split_on c xs
      else (case split_on c xs of
              [] \<Rightarrow> [[x]]
            | p # ps \<Rightarrow> (x # p) # ps))"

text \<open>
  \<^verbatim>\<open>s.split(/\s+/)\<close>: a maximal run of white space separates; a run at either end
  leaves an empty piece there.
\<close>

function split_ws :: "string \<Rightarrow> string list" where
  "split_ws [] = [[]]"
| "split_ws (x # xs) =
     (if isSpace x then [] # split_ws (dropWhile isSpace xs)
      else (case split_ws xs of
              [] \<Rightarrow> [[x]]
            | p # ps \<Rightarrow> (x # p) # ps))"
  by pat_completeness auto
termination
  by (relation "measure length") (auto simp: length_dropWhile_le less_Suc_eq_le)

text \<open>
  \<^verbatim>\<open>s.replace(/^\./, '')\<close>: removes one dot at the start of the string, if there is
  one.
\<close>

definition replace_leading_dot :: "string \<Rightarrow> string" where
  "replace_leading_dot s = (case s of [] \<Rightarrow> [] | c # r \<Rightarrow> if c = CHR ''.'' then r else s)"

text \<open>
  \<^verbatim>\<open>[...new Set(xs)]\<close>: a \<^verbatim>\<open>Set\<close> keeps each value once, at the place of its first
  insertion.
\<close>

definition set_add :: "'a \<Rightarrow> 'a list \<Rightarrow> 'a list" where
  "set_add x acc = (if x \<in> set acc then acc else acc @ [x])"

definition unique :: "'a list \<Rightarrow> 'a list" where
  "unique xs = fold set_add xs []"

section \<open>Errors\<close>

text \<open>
  \<^verbatim>\<open>handleError(msg)\<close> prints the message and calls \<^verbatim>\<open>process.exit(1)\<close>, so nothing after
  it runs. Each call site has a constructor of its own, with the value interpolated in
  the message:
  \<^item> \<open>MustUseMountCommand target\<close>: "scripts[target] must use the mount command";
  \<^item> \<open>MustUseMountFormat target\<close>: "scripts[target] must use the format: mount dir [--to /PATH]";
  \<^item> \<open>ToMustBeUrlPath target to\<close>: "scripts[target]: --to ... must be a URL path, and start with a /";
  \<^item> \<open>FailedToLoadBundler name\<close>: "Failed to load plugin ... Only installed Snowpack Plugins are supported for bundle:*";
  \<^item> \<open>LoadedInBoth name\<close>: "[name]: loaded in both scripts and plugins. Please choose one (preferably plugins).";
  \<^item> \<open>MissingInputOptions name\<close>: "[name]: missing input options (see snowpack.dev/plugins)".

  The other three are exceptions that leave \<^verbatim>\<open>loadPlugins\<close> uncaught: a \<^verbatim>\<open>TypeError\<close> or
  \<^verbatim>\<open>ReferenceError\<close> of the runtime, and whatever \<^verbatim>\<open>require.resolve\<close>, \<^verbatim>\<open>require\<close> or the
  plugin's factory throws inside \<^verbatim>\<open>loadPluginFromConfig\<close>.
\<close>

datatype error =
    MustUseMountCommand string
  | MustUseMountFormat string
  | ToMustBeUrlPath string string
  | FailedToLoadBundler string
  | LoadedInBoth string
  | MissingInputOptions string
  | TypeError
  | ReferenceError
  | RequireFailed string

section \<open>parseScript\<close>

record ParsedScript =
  scriptType :: string
  extensions :: "string list"

text \<open>
  \<^verbatim>\<open>const [scriptType, extMatch] = script.toLowerCase().split(':')\<close>: the whole key is
  lower-cased, then cut at every colon; the first two pieces are read. With no colon
  \<^verbatim>\<open>extMatch\<close> is \<^verbatim>\<open>undefined\<close> and \<^verbatim>\<open>extMatch.split\<close> throws a \<^verbatim>\<open>TypeError\<close>.
  Each extension is \<^verbatim>\<open>`.${ext}`.replace(/^\./, '').trim()\<close>: a dot is put in front, the
  replacement is applied to the result, then the white space goes.
\<close>

definition normalizeExt :: "string \<Rightarrow> string" where
  "normalizeExt ext = trim (replace_leading_dot (''.'' @ ext))"

definition parseScript :: "string \<Rightarrow> error + ParsedScript" where
  "parseScript script =
     (case split_on CHR '':'' (toLowerCase script) of
        st # extMatch # _ \<Rightarrow>
          Inr \<lparr>scriptType = st,
               extensions = unique (map normalizeExt (split_on CHR '','' extMatch))\<rparr>
      | _ \<Rightarrow> Inl TypeError)"

section \<open>The data of a resolution pass\<close>

text \<open>
  \<^verbatim>\<open>SnowpackPlugin\<close> is declared in \<^verbatim>\<open>./config\<close>; \<^verbatim>\<open>plugins.ts\<close> reads and writes four of
  its fields. \<^verbatim>\<open>input\<close> and \<^verbatim>\<open>output\<close> hold one extension or an array of them
  (\<^verbatim>\<open>createBuildPipeline\<close> asks \<^verbatim>\<open>Array.isArray\<close>). A field that is absent is \<open>None\<close>.
  Everything else a plugin carries (its hooks) is opaque here and stands under \<open>hooks\<close>.
\<close>

datatype ExtField = Single string | Many "string list"

record SnowpackPlugin =
  name :: "string option"
  input :: "ExtField option"
  "output" :: "ExtField option"
  defaultBuildScript :: "string option"
  hooks :: string

record RunCmd =
  rc_id :: string
  cmd :: string

record MountedDir =
  md_id :: string
  fromDisk :: string
  toUrl :: string

text \<open>
  An entry of \<^verbatim>\<open>config.plugins\<close> is a specifier or a pair of a specifier and its
  options; the options are opaque.
\<close>

datatype PluginRef = Bare string | WithOptions string string

text \<open>
  \<open>scripts\<close> is \<^verbatim>\<open>Object.entries(config.scripts)\<close>: the directives in declaration order,
  no key twice.
\<close>

record SnowpackConfig =
  scripts :: "(string \<times> string) list"
  config_plugins :: "PluginRef list"

record LoadResult =
  plugins :: "SnowpackPlugin list"
  bundler :: "SnowpackPlugin option"
  runCommands :: "RunCmd list"
  buildCommands :: "string \<rightharpoonup> RunCmd"
  mountedDirs :: "MountedDir list"

text \<open>
  The local variables of \<^verbatim>\<open>loadPlugins\<close>: the five it returns and \<^verbatim>\<open>scriptPlugins\<close>, an
  object keyed by specifier, kept in insertion order as \<^verbatim>\<open>Object.values\<close> reads it.
  A specifier is taken not to be an array index, which \<^verbatim>\<open>Object.values\<close> would move to
  the front.
\<close>

record LoadState = LoadResult +
  scriptPlugins :: "(string \<times> SnowpackPlugin) list"

section \<open>What the module imports\<close>

text \<open>
  \<^verbatim>\<open>{to, _} = yargs(cmdArr)\<close>: the value of the \<^verbatim>\<open>--to\<close> option when it is a string
  (\<open>None\<close> when the option is absent) and the positional arguments, of which the code
  reads the number only. A \<^verbatim>\<open>--to\<close> that the parser turns into a boolean, a number or an
  array has no place in this type.
\<close>

record Argv =
  to :: "string option"
  positional :: "string list"

text \<open>
  The module's surroundings, as parameters:
  \<^item> \<open>requirePlugin specifier options\<close> is
    \<^verbatim>\<open>require(require.resolve(specifier, {paths: [process.cwd()]}))(config, options)\<close>,
    \<open>None\<close> when any of it throws; \<open>options\<close> is \<open>None\<close> when the factory gets the
    configuration alone;
  \<^item> \<open>yargs\<close> is the \<^verbatim>\<open>yargs-parser\<close> package;
  \<^item> \<open>normalize\<close> is \<^verbatim>\<open>path.posix.normalize\<close>;
  \<^item> \<open>DEV_DEPENDENCIES_DIR\<close> is the constant of \<^verbatim>\<open>./util\<close>.
\<close>

record Env =
  requirePlugin :: "string \<Rightarrow> string option \<Rightarrow> SnowpackPlugin option"
  yargs :: "string list \<Rightarrow> Argv"
  normalize :: "string \<Rightarrow> string"
  DEV_DEPENDENCIES_DIR :: string

text \<open>JavaScript truthiness of the values that are tested.\<close>

definition truthyString :: "string option \<Rightarrow> bool" where
  "truthyString v = (case v of None \<Rightarrow> False | Some s \<Rightarrow> s \<noteq> [])"

definition truthyExt :: "ExtField option \<Rightarrow> bool" where
  "truthyExt v = (case v of None \<Rightarrow> False | Some (Single s) \<Rightarrow> s \<noteq> [] | Some (Many xs) \<Rightarrow> True)"

section \<open>Plain objects as dictionaries\<close>

text \<open>
  \<^verbatim>\<open>scriptPlugins\<close>, \<^verbatim>\<open>buildCommands\<close> and the pipeline are created as \<^verbatim>\<open>{}\<close>, so a read
  \<^verbatim>\<open>obj[key]\<close> that finds no property of the object's own goes on to \<^verbatim>\<open>Object.prototype\<close>.
  These are the properties found there; each holds a function, but for \<^verbatim>\<open>__proto__\<close>,
  which holds \<^verbatim>\<open>Object.prototype\<close> itself. All are truthy, none is an array, none has a
  \<^verbatim>\<open>push\<close>.
\<close>

definition objectPrototypeNames :: "string list" where
  "objectPrototypeNames =
     [''constructor'', ''__defineGetter__'', ''__defineSetter__'', ''hasOwnProperty'',
      ''__lookupGetter__'', ''__lookupSetter__'', ''isPrototypeOf'', ''propertyIsEnumerable'',
      ''toString'', ''valueOf'', ''__proto__'', ''toLocaleString'']"

definition inheritedName :: "string \<Rightarrow> bool" where
  "inheritedName key = (key \<in> set objectPrototypeNames)"

text \<open>
  \<^verbatim>\<open>if (scriptPlugins[pluginName])\<close>: the test holds for a registered specifier and for
  an inherited name.
\<close>

definition truthyEntry :: "(string \<times> 'a) list \<Rightarrow> string \<Rightarrow> bool" where
  "truthyEntry obj key = (map_of obj key \<noteq> None \<or> inheritedName key)"

text \<open>
  \<^verbatim>\<open>obj[key] = value\<close> with an object for value: under \<^verbatim>\<open>__proto__\<close> the assignment
  replaces the prototype and gives the object no property of its own.
\<close>

definition assignProperty :: "(string \<rightharpoonup> 'a) \<Rightarrow> string \<Rightarrow> 'a \<Rightarrow> (string \<rightharpoonup> 'a)" where
  "assignProperty obj key v = (if key = ''__proto__'' then obj else obj(key \<mapsto> v))"

section \<open>loadPlugins\<close>

text \<open>\<^verbatim>\<open>loadPluginFromScript\<close>: a failure is caught and ignored, the result is \<^verbatim>\<open>undefined\<close>.\<close>

definition loadPluginFromScript :: "Env \<Rightarrow> string \<Rightarrow> SnowpackPlugin option" where
  "loadPluginFromScript env specifier = requirePlugin env specifier None"

text \<open>\<^verbatim>\<open>loadPluginFromConfig\<close>: a failure is thrown on.\<close>

definition loadPluginFromConfig :: "Env \<Rightarrow> string \<Rightarrow> string \<Rightarrow> error + SnowpackPlugin" where
  "loadPluginFromConfig env nm options =
     (case requirePlugin env nm (Some options) of
        None \<Rightarrow> Inl (RequireFailed nm)
      | Some plugin \<Rightarrow> Inr plugin)"

text \<open>\<^verbatim>\<open>case 'run'\<close>.\<close>

definition runDirective :: "string \<Rightarrow> string \<Rightarrow> LoadState \<Rightarrow> error + LoadState" where
  "runDirective target c st =
     Inr (st\<lparr>runCommands := runCommands st @ [\<lparr>rc_id = target, cmd = c\<rparr>]\<rparr>)"

text \<open>
  \<^verbatim>\<open>case 'build'\<close>. When \<^verbatim>\<open>scriptPlugins[pluginName]\<close> is truthy the source evaluates
  \<^verbatim>\<open>let {input, output} = loadPlugins[pluginName]\<close>, a property of the function
  \<^verbatim>\<open>loadPlugins\<close> itself. No property of that function is an object with an iterable
  \<^verbatim>\<open>input\<close>: the destructuring or the spread on the next line throws a \<^verbatim>\<open>TypeError\<close>.
\<close>

definition buildDirective ::
  "Env \<Rightarrow> string \<Rightarrow> string \<Rightarrow> string list \<Rightarrow> LoadState \<Rightarrow> error + LoadState" where
  "buildDirective env target c exts st =
     (let pluginName = c in
      case loadPluginFromScript env pluginName of
        Some plugin \<Rightarrow>
          (if truthyEntry (scriptPlugins st) pluginName then Inl TypeError
           else
             Inr (st\<lparr>scriptPlugins := scriptPlugins st @
                    [(pluginName,
                      plugin\<lparr>name := Some pluginName,
                             input := Some (Many exts),
                             output := Some (Many exts)\<rparr>)]\<rparr>))
      | None \<Rightarrow>
          Inr (st\<lparr>buildCommands :=
                 fold (\<lambda>ext bc. assignProperty bc ext \<lparr>rc_id = target, cmd = c\<rparr>) exts
                   (buildCommands st)\<rparr>))"

text \<open>
  \<^verbatim>\<open>case 'mount'\<close>. After \<^verbatim>\<open>cmdArr.shift()\<close> the directory is read from \<^verbatim>\<open>cmdArr[0]\<close>, the
  first token after \<^verbatim>\<open>mount\<close>; an absent token prints as \<^verbatim>\<open>undefined\<close> in the two
  concatenations.
\<close>

definition mountDirective :: "Env \<Rightarrow> string \<Rightarrow> string \<Rightarrow> LoadState \<Rightarrow> error + LoadState" where
  "mountDirective env target c st =
     (case split_ws c of
        [] \<Rightarrow> Inl (MustUseMountCommand target)
      | first # cmdArr \<Rightarrow>
          if first \<noteq> ''mount'' then Inl (MustUseMountCommand target)
          else
            let argv = yargs env cmdArr in
            if length (positional argv) \<noteq> 1 then Inl (MustUseMountFormat target)
            else if truthyString (to argv) \<and> take 1 (the (to argv)) \<noteq> ''/''
              then Inl (ToMustBeUrlPath target (the (to argv)))
            else
              let cmdArr0 = (case cmdArr of [] \<Rightarrow> ''undefined'' | d # _ \<Rightarrow> d);
                  dirUrl = (if truthyString (to argv) then the (to argv) else ''/'' @ cmdArr0);
                  dirDisk = (if target = ''mount:web_modules'' then DEV_DEPENDENCIES_DIR env
                             else cmdArr0)
              in Inr (st\<lparr>mountedDirs := mountedDirs st @
                        [\<lparr>md_id = target,
                          fromDisk = normalize env (dirDisk @ ''/''),
                          toUrl = normalize env (dirUrl @ ''/'')\<rparr>]\<rparr>))"

text \<open>\<^verbatim>\<open>case 'bundle'\<close>.\<close>

definition bundleDirective :: "Env \<Rightarrow> string \<Rightarrow> LoadState \<Rightarrow> error + LoadState" where
  "bundleDirective env c st =
     (let bundlerName = c in
      case loadPluginFromScript env bundlerName of
        None \<Rightarrow> Inl (FailedToLoadBundler bundlerName)
      | Some b \<Rightarrow>
          Inr (st\<lparr>bundler :=
                 Some (if \<not> truthyString (name b) then b\<lparr>name := Some bundlerName\<rparr> else b)\<rparr>))"

text \<open>The body of \<^verbatim>\<open>Object.entries(config.scripts).forEach\<close>.\<close>

definition scriptDirective :: "Env \<Rightarrow> LoadState \<Rightarrow> string \<times> string \<Rightarrow> error + LoadState" where
  "scriptDirective env st d =
     (case d of (target, c) \<Rightarrow>
        (case parseScript target of
           Inl e \<Rightarrow> Inl e
         | Inr parsed \<Rightarrow>
             if scriptType parsed = ''run'' then runDirective target c st
             else if scriptType parsed = ''build'' then
               buildDirective env target c (extensions parsed) st
             else if scriptType parsed = ''mount'' then mountDirective env target c st
             else if scriptType parsed = ''bundle'' then bundleDirective env c st
             else Inr st))"

fun loadScripts :: "Env \<Rightarrow> LoadState \<Rightarrow> (string \<times> string) list \<Rightarrow> error + LoadState" where
  "loadScripts env st [] = Inr st"
| "loadScripts env st (d # ds) =
     (case scriptDirective env st d of
        Inl e \<Rightarrow> Inl e
      | Inr st' \<Rightarrow> loadScripts env st' ds)"

text \<open>
  After the directives: the script plugins go to \<^verbatim>\<open>plugins\<close>, and the default mount is
  added unless \<^verbatim>\<open>config.scripts['mount:web_modules']\<close> is truthy.
\<close>

definition defaultMount :: "Env \<Rightarrow> MountedDir" where
  "defaultMount env =
     \<lparr>md_id = ''mount:web_modules'',
      fromDisk = DEV_DEPENDENCIES_DIR env,
      toUrl = ''/web_modules''\<rparr>"

definition afterScripts :: "Env \<Rightarrow> SnowpackConfig \<Rightarrow> LoadState \<Rightarrow> LoadState" where
  "afterScripts env config st =
     (let st1 = st\<lparr>plugins := plugins st @ map snd (scriptPlugins st)\<rparr>
      in if \<not> truthyString (map_of (scripts config) ''mount:web_modules'')
         then st1\<lparr>mountedDirs := mountedDirs st1 @ [defaultMount env]\<rparr>
         else st1)"

text \<open>
  The body of \<^verbatim>\<open>config.plugins.forEach\<close>. Its last test is \<^verbatim>\<open>if (!name)\<close>. No \<^verbatim>\<open>name\<close> is
  declared in the callback, in \<^verbatim>\<open>loadPlugins\<close> or in the module, and Node's global
  object has none, so evaluating the identifier throws a \<^verbatim>\<open>ReferenceError\<close>.
\<close>

definition name_identifier :: "error + string option" where
  "name_identifier = Inl ReferenceError"

definition refName :: "PluginRef \<Rightarrow> string" where
  "refName r = (case r of Bare s \<Rightarrow> s | WithOptions s opts \<Rightarrow> s)"

definition refOptions :: "PluginRef \<Rightarrow> string" where
  "refOptions r = (case r of Bare s \<Rightarrow> ''{}'' | WithOptions s opts \<Rightarrow> opts)"

definition backfillInput :: "SnowpackPlugin \<Rightarrow> error + SnowpackPlugin" where
  "backfillInput plugin =
     (if truthyString (defaultBuildScript plugin) \<and> \<not> truthyExt (input plugin) then
        (case parseScript (the (defaultBuildScript plugin)) of
           Inl e \<Rightarrow> Inl e
         | Inr parsed \<Rightarrow>
             Inr (plugin\<lparr>input := Some (Many (extensions parsed)),
                         output := Some (Many (extensions parsed))\<rparr>))
      else Inr plugin)"

definition configPlugin :: "Env \<Rightarrow> LoadState \<Rightarrow> PluginRef \<Rightarrow> error + LoadState" where
  "configPlugin env st r =
     (let pluginName = refName r; pluginOptions = refOptions r in
      if truthyEntry (scriptPlugins st) pluginName then Inl (LoadedInBoth pluginName)
      else
        case loadPluginFromConfig env pluginName pluginOptions of
          Inl e \<Rightarrow> Inl e
        | Inr plugin \<Rightarrow>
            if \<not> truthyString (defaultBuildScript plugin) \<and> \<not> truthyExt (input plugin)
              then Inl (MissingInputOptions pluginName)
            else
              case backfillInput plugin of
                Inl e \<Rightarrow> Inl e
              | Inr plugin1 \<Rightarrow>
                  (case name_identifier of
                     Inl e \<Rightarrow> Inl e
                   | Inr nm \<Rightarrow>
                       Inr (st\<lparr>plugins := plugins st @
                              [if \<not> truthyString nm then plugin1\<lparr>name := Some pluginName\<rparr>
                               else plugin1]\<rparr>)))"

fun loadConfigPlugins :: "Env \<Rightarrow> LoadState \<Rightarrow> PluginRef list \<Rightarrow> error + LoadState" where
  "loadConfigPlugins env st [] = Inr st"
| "loadConfigPlugins env st (r # rs) =
     (case configPlugin env st r of
        Inl e \<Rightarrow> Inl e
      | Inr st' \<Rightarrow> loadConfigPlugins env st' rs)"

definition initialState :: LoadState where
  "initialState =
     \<lparr>plugins = [], bundler = None, runCommands = [], buildCommands = Map.empty,
      mountedDirs = [], scriptPlugins = []\<rparr>"

definition returned :: "LoadState \<Rightarrow> LoadResult" where
  "returned st =
     \<lparr>plugins = plugins st, bundler = bundler st, runCommands = runCommands st,
      buildCommands = buildCommands st, mountedDirs = mountedDirs st\<rparr>"

definition loadPlugins :: "Env \<Rightarrow> SnowpackConfig \<Rightarrow> error + LoadResult" where
  "loadPlugins env config =
     (case loadScripts env initialState (scripts config) of
        Inl e \<Rightarrow> Inl e
      | Inr st \<Rightarrow>
          (case loadConfigPlugins env (afterScripts env config st) (config_plugins config) of
             Inl e \<Rightarrow> Inl e
           | Inr st' \<Rightarrow> Inr (returned st')))"

section \<open>createBuildPipeline\<close>

text \<open>
  \<^verbatim>\<open>inputs = Array.isArray(plugin.input) ? plugin.input : [plugin.input]\<close>. An absent
  \<^verbatim>\<open>input\<close> gives the one-element array \<^verbatim>\<open>[undefined]\<close>, and as a property key
  \<^verbatim>\<open>undefined\<close> is the string of that name.
\<close>

definition pluginInputs :: "SnowpackPlugin \<Rightarrow> string list" where
  "pluginInputs plugin =
     (case input plugin of
        Some (Many xs) \<Rightarrow> xs
      | Some (Single s) \<Rightarrow> [s]
      | None \<Rightarrow> [''undefined''])"

text \<open>
  The body of \<^verbatim>\<open>inputs.forEach\<close>. \<^verbatim>\<open>pipeline[ext]\<close> is the array of the pipeline's own, or
  else what \<^verbatim>\<open>Object.prototype\<close> holds under that name; this is truthy and has no
  \<^verbatim>\<open>push\<close>, so the call throws a \<^verbatim>\<open>TypeError\<close>. Only when both are missing is the
  extension given a new array.
\<close>

definition pushPlugin ::
  "SnowpackPlugin \<Rightarrow> string \<Rightarrow> (string \<rightharpoonup> SnowpackPlugin list)
     \<Rightarrow> error + (string \<rightharpoonup> SnowpackPlugin list)" where
  "pushPlugin plugin ext pipeline =
     (case pipeline ext of
        Some ps \<Rightarrow> Inr (pipeline(ext \<mapsto> ps @ [plugin]))
      | None \<Rightarrow>
          if inheritedName ext then Inl TypeError
          else Inr (pipeline(ext \<mapsto> [plugin])))"

fun pushAll ::
  "SnowpackPlugin \<Rightarrow> string list \<Rightarrow> (string \<rightharpoonup> SnowpackPlugin list)
     \<Rightarrow> error + (string \<rightharpoonup> SnowpackPlugin list)" where
  "pushAll plugin [] pipeline = Inr pipeline"
| "pushAll plugin (ext # exts) pipeline =
     (case pushPlugin plugin ext pipeline of
        Inl e \<Rightarrow> Inl e
      | Inr pipeline' \<Rightarrow> pushAll plugin exts pipeline')"

text \<open>The body of \<^verbatim>\<open>plugins.forEach\<close>.\<close>

definition indexPlugin ::
  "(string \<rightharpoonup> SnowpackPlugin list) \<Rightarrow> SnowpackPlugin
     \<Rightarrow> error + (string \<rightharpoonup> SnowpackPlugin list)" where
  "indexPlugin pipeline plugin = pushAll plugin (pluginInputs plugin) pipeline"

fun indexAll ::
  "SnowpackPlugin list \<Rightarrow> (string \<rightharpoonup> SnowpackPlugin list)
     \<Rightarrow> error + (string \<rightharpoonup> SnowpackPlugin list)" where
  "indexAll [] pipeline = Inr pipeline"
| "indexAll (plugin # ps) pipeline =
     (case indexPlugin pipeline plugin of
        Inl e \<Rightarrow> Inl e
      | Inr pipeline' \<Rightarrow> indexAll ps pipeline')"

definition createBuildPipeline ::
  "SnowpackPlugin list \<Rightarrow> error + (string \<rightharpoonup> SnowpackPlugin list)" where
  "createBuildPipeline ps = indexAll ps Map.empty"

section \<open>An environment to run the code in\<close>

text \<open>
  \<^verbatim>\<open>path.posix.normalize\<close> of Node: the segments between slashes are read from the
  left; empty segments and \<^verbatim>\<open>.\<close> are dropped; \<^verbatim>\<open>..\<close> removes the segment before it, and
  is kept when there is none to remove and the path is relative. A slash at the start
  or at the end of the path stays.
\<close>

fun normalizeSegments :: "bool \<Rightarrow> string list \<Rightarrow> string list \<Rightarrow> string list" where
  "normalizeSegments allowAboveRoot res [] = res"
| "normalizeSegments allowAboveRoot res (seg # segs) =
     (if seg = [] \<or> seg = ''.'' then normalizeSegments allowAboveRoot res segs
      else if seg = ''..'' then
        (if res \<noteq> [] \<and> last res \<noteq> ''..'' then normalizeSegments allowAboveRoot (butlast res) segs
         else if allowAboveRoot then normalizeSegments allowAboveRoot (res @ [seg]) segs
         else normalizeSegments allowAboveRoot res segs)
      else normalizeSegments allowAboveRoot (res @ [seg]) segs)"

fun joinSegments :: "string list \<Rightarrow> string" where
  "joinSegments [] = []"
| "joinSegments [seg] = seg"
| "joinSegments (seg # segs) = seg @ ''/'' @ joinSegments segs"

definition posixNormalize :: "string \<Rightarrow> string" where
  "posixNormalize p =
     (if p = [] then ''.''
      else
        let isAbsolute = (hd p = CHR ''/'');
            trailingSeparator = (last p = CHR ''/'');
            q = joinSegments (normalizeSegments (\<not> isAbsolute) [] (split_on CHR ''/'' p))
        in if q = [] then (if isAbsolute then ''/'' else if trailingSeparator then ''./'' else ''.'')
           else (if isAbsolute then ''/'' else []) @ q @ (if trailingSeparator then ''/'' else []))"

text \<open>
  \<^verbatim>\<open>yargs-parser\<close> on argument lists in which every \<^verbatim>\<open>--to\<close> is followed by its value
  and no other option occurs: the value goes to \<^verbatim>\<open>to\<close>, every other token to \<^verbatim>\<open>_\<close>.
\<close>

fun yargsTo :: "string list \<Rightarrow> Argv" where
  "yargsTo [] = \<lparr>to = None, positional = []\<rparr>"
| "yargsTo [t] = \<lparr>to = None, positional = [t]\<rparr>"
| "yargsTo (t # v # ts) =
     (if t = ''--to'' then (yargsTo ts)\<lparr>to := Some v\<rparr>
      else (let r = yargsTo (v # ts) in r\<lparr>positional := t # positional r\<rparr>))"

text \<open>
  A project in which two plugins are installed: \<^verbatim>\<open>my-plugin\<close>, whose factory returns
  hooks only, and \<^verbatim>\<open>named-plugin\<close>, whose factory returns a plugin with a name and an
  input of its own. No other specifier resolves.
\<close>

definition examplePlugin :: SnowpackPlugin where
  "examplePlugin =
     \<lparr>name = None, input = None, output = None, defaultBuildScript = None,
      hooks = ''my-plugin hooks''\<rparr>"

definition namedPlugin :: SnowpackPlugin where
  "namedPlugin =
     \<lparr>name = Some ''declared-name'', input = Some (Many [''.svelte'']),
      output = Some (Many [''.js'']), defaultBuildScript = None,
      hooks = ''named-plugin hooks''\<rparr>"

definition exampleRequire :: "string \<Rightarrow> string option \<Rightarrow> SnowpackPlugin option" where
  "exampleRequire specifier options =
     (if specifier = ''my-plugin'' then Some examplePlugin
      else if specifier = ''named-plugin'' then Some namedPlugin
      else None)"

definition exampleEnv :: Env where
  "exampleEnv =
     \<lparr>requirePlugin = exampleRequire, yargs = yargsTo, normalize = posixNormalize,
      DEV_DEPENDENCIES_DIR = ''/project/node_modules/.cache/snowpack/dev''\<rparr>"

section \<open>Reading a pipeline\<close>

text \<open>The sequence a pipeline holds for an extension, empty when it holds none.\<close>

definition sequenceOf :: "(string \<rightharpoonup> SnowpackPlugin list) \<Rightarrow> string \<Rightarrow> SnowpackPlugin list" where
  "sequenceOf pipeline ext = (case pipeline ext of None \<Rightarrow> [] | Some ps \<Rightarrow> ps)"

text \<open>
  The plugins of a list, in the order of the list, each one once for every time the
  extension stands in its inputs.
\<close>

definition occurrences :: "string \<Rightarrow> SnowpackPlugin list \<Rightarrow> SnowpackPlugin list" where
  "occurrences ext ps = concat (map (\<lambda>p. replicate (count_list (pluginInputs p) ext) p) ps)"

section \<open>Facts about the string operations\<close>

lemma lowerChar_not_upper: "lowerChar c \<notin> set upper_chars"
  by (simp add: lowerChar_def upper_chars_def lower_chars_def)

lemma lowerChar_idem: "lowerChar (lowerChar c) = lowerChar c"
  by (simp add: lowerChar_def upper_chars_def lower_chars_def)

lemma toLowerCase_idem: "toLowerCase (toLowerCase s) = toLowerCase s"
  by (simp add: toLowerCase_def lowerChar_idem)

lemma split_on_not_Nil: "split_on c s \<noteq> []"
  by (induction s) (auto split: list.splits)

lemma split_on_chars: "p \<in> set (split_on c s) \<Longrightarrow> set p \<subseteq> set s"
proof (induction s arbitrary: p)
  case Nil
  then show ?case by simp
next
  case (Cons x xs)
  show ?case
  proof (cases "x = c")
    case True
    with Cons show ?thesis by auto
  next
    case False
    obtain q qs where q: "split_on c xs = q # qs"
      using split_on_not_Nil [of c xs] by (cases "split_on c xs") auto
    with False Cons.prems have "p = x # q \<or> p \<in> set qs" by auto
    then show ?thesis
    proof
      assume "p = x # q"
      moreover have "set q \<subseteq> set xs" using Cons.IH [of q] q by simp
      ultimately show ?thesis by auto
    next
      assume "p \<in> set qs"
      then have "set p \<subseteq> set xs" using Cons.IH [of p] q by simp
      then show ?thesis by auto
    qed
  qed
qed

lemma trim_chars: "set (trim s) \<subseteq> set s"
proof -
  have "set (trim s) \<subseteq> set (dropWhile isSpace s)"
    unfolding trim_def using set_dropWhileD [of _ isSpace "rev (dropWhile isSpace s)"] by auto
  also have "\<dots> \<subseteq> set s" using set_dropWhileD [of _ isSpace s] by auto
  finally show ?thesis .
qed

text \<open>The dot that \<open>normalizeExt\<close> puts in front is the dot that it removes.\<close>

lemma normalizeExt_trim: "normalizeExt ext = trim ext"
  by (simp add: normalizeExt_def replace_leading_dot_def)

lemma set_fold_set_add: "set (fold set_add xs acc) = set xs \<union> set acc"
  by (induction xs arbitrary: acc) (auto simp: set_add_def)

lemma set_unique: "set (unique xs) = set xs"
  by (simp add: unique_def set_fold_set_add)

lemma distinct_fold_set_add: "distinct acc \<Longrightarrow> distinct (fold set_add xs acc)"
  by (induction xs arbitrary: acc) (auto simp: set_add_def)

lemma distinct_unique: "distinct (unique xs)"
  by (simp add: unique_def distinct_fold_set_add)

lemma unique_not_Nil: "xs \<noteq> [] \<Longrightarrow> unique xs \<noteq> []"
  using set_unique [of xs] by (metis set_empty)

section \<open>The directive classifier\<close>

lemma parseScript_cases:
  assumes "parseScript key = Inr r"
  obtains st extMatch rest where
    "split_on CHR '':'' (toLowerCase key) = st # extMatch # rest"
    "scriptType r = st"
    "extensions r = unique (map normalizeExt (split_on CHR '','' extMatch))"
  using assms by (auto simp: parseScript_def split: list.splits)

lemma parseScript_extensions_not_Nil: "parseScript key = Inr r \<Longrightarrow> extensions r \<noteq> []"
  by (erule parseScript_cases) (simp add: unique_not_Nil split_on_not_Nil)

text \<open>
  C2. The classifier is to give every extension exactly one leading dot, and the comment
  above \<^verbatim>\<open>parseScript\<close> says so. The code does not: on the key \<^verbatim>\<open>build:js,jsx\<close> it returns
  the script type \<^verbatim>\<open>build\<close> and the extensions \<^verbatim>\<open>js\<close> and \<^verbatim>\<open>jsx\<close>, neither with a dot.
\<close>

theorem parseScript_leaves_extensions_undotted:
  "parseScript ''build:js,jsx'' = Inr \<lparr>scriptType = ''build'', extensions = [''js'', ''jsx'']\<rparr>"
  by code_simp

text \<open>
  C6, as the claim has it: two extension tokens that differ only in case stay two
  elements. They do not: the key \<^verbatim>\<open>build:js,JS\<close> has the single extension \<^verbatim>\<open>js\<close>.
\<close>

theorem parseScript_case_variants_collapse:
  "parseScript ''build:js,JS'' = Inr \<lparr>scriptType = ''build'', extensions = [''js'']\<rparr>"
  by code_simp

text \<open>
  C6, amended. The classifier lower-cases the whole key, extension tokens included: no
  upper-case letter is left in the script type or in any extension, the extensions are
  pairwise different, and a key and its lower-case form are classified alike.
\<close>

theorem parseScript_lower_cases_whole_key:
  assumes "parseScript key = Inr r"
  shows "(\<forall>c \<in> set (scriptType r). c \<notin> set upper_chars)
       \<and> (\<forall>e \<in> set (extensions r). \<forall>c \<in> set e. c \<notin> set upper_chars)
       \<and> distinct (extensions r)
       \<and> parseScript (toLowerCase key) = Inr r"
proof -
  from assms obtain st extMatch rest where
    sp: "split_on CHR '':'' (toLowerCase key) = st # extMatch # rest"
    and st: "scriptType r = st"
    and ex: "extensions r = unique (map normalizeExt (split_on CHR '','' extMatch))"
    by (rule parseScript_cases)
  have low: "\<And>c. c \<in> set (toLowerCase key) \<Longrightarrow> c \<notin> set upper_chars"
    by (auto simp: toLowerCase_def lowerChar_not_upper)
  have "set st \<subseteq> set (toLowerCase key)"
    using split_on_chars [of st "CHR '':''" "toLowerCase key"] sp by simp
  then have a: "\<forall>c \<in> set (scriptType r). c \<notin> set upper_chars"
    using low st by blast
  have em: "set extMatch \<subseteq> set (toLowerCase key)"
    using split_on_chars [of extMatch "CHR '':''" "toLowerCase key"] sp by simp
  have b: "\<forall>e \<in> set (extensions r). \<forall>c \<in> set e. c \<notin> set upper_chars"
  proof (intro ballI)
    fix e c assume e: "e \<in> set (extensions r)" and c: "c \<in> set e"
    from e ex obtain t where t: "t \<in> set (split_on CHR '','' extMatch)" and "e = trim t"
      by (auto simp: set_unique normalizeExt_trim)
    then have "set e \<subseteq> set t" using trim_chars by simp
    moreover have "set t \<subseteq> set extMatch" using split_on_chars t by simp
    ultimately have "c \<in> set (toLowerCase key)" using c em by blast
    then show "c \<notin> set upper_chars" by (rule low)
  qed
  have d: "distinct (extensions r)"
    using ex by (simp add: distinct_unique)
  have c: "parseScript (toLowerCase key) = Inr r"
    using assms by (simp add: parseScript_def toLowerCase_idem)
  from a b c d show ?thesis by blast
qed

theorem parseScript_lower_cases_whole_key_witness:
  "parseScript ''Build:JS,css,js'' = Inr \<lparr>scriptType = ''build'', extensions = [''js'', ''css'']\<rparr>
   \<and> list_all (\<lambda>c. c \<notin> set upper_chars) ''build''
   \<and> list_all (list_all (\<lambda>c. c \<notin> set upper_chars)) [''js'', ''css'']
   \<and> distinct [''js'', ''css'']
   \<and> parseScript (toLowerCase ''Build:JS,css,js'')
       = Inr \<lparr>scriptType = ''build'', extensions = [''js'', ''css'']\<rparr>"
proof -
  have h: "parseScript ''Build:JS,css,js''
             = Inr \<lparr>scriptType = ''build'', extensions = [''js'', ''css'']\<rparr>"
    by code_simp
  show ?thesis
    using h parseScript_lower_cases_whole_key [OF h] unfolding list_all_iff by simp
qed

section \<open>The script directives\<close>

lemmas directive_defs =
  scriptDirective_def runDirective_def buildDirective_def mountDirective_def bundleDirective_def
  truthyEntry_def

lemmas example_defs =
  exampleEnv_def exampleRequire_def examplePlugin_def namedPlugin_def loadPluginFromScript_def
  loadPluginFromConfig_def

lemma scriptDirective_plugins:
  "scriptDirective env st d = Inr st' \<Longrightarrow> plugins st' = plugins st"
  by (auto simp: directive_defs Let_def
      split: sum.splits option.splits list.splits if_splits prod.splits)

text \<open>A directive leaves \<open>scriptPlugins\<close> as it is or registers the plugin of its command.\<close>

lemma scriptDirective_scriptPlugins:
  assumes "scriptDirective env st d = Inr st'"
  shows "scriptPlugins st' = scriptPlugins st
       \<or> (\<exists>parsed pl. parseScript (fst d) = Inr parsed
              \<and> loadPluginFromScript env (snd d) = Some pl
              \<and> scriptPlugins st' = scriptPlugins st @
                   [(snd d, pl\<lparr>name := Some (snd d), input := Some (Many (extensions parsed)),
                                 output := Some (Many (extensions parsed))\<rparr>)])"
  using assms
  by (auto simp: directive_defs Let_def
      split: sum.splits option.splits list.splits if_splits prod.splits)

lemma scriptDirective_keeps_key:
  assumes "scriptDirective env st d = Inr st'" and "map_of (scriptPlugins st) k \<noteq> None"
  shows "map_of (scriptPlugins st') k \<noteq> None"
  using scriptDirective_scriptPlugins [OF assms(1)] assms(2)
  by (auto simp: map_add_def split: option.splits)

lemma scriptDirective_build_registers:
  assumes "scriptDirective env st (target, p) = Inr st'"
      and "parseScript target = Inr parsed" and "scriptType parsed = ''build''"
      and "loadPluginFromScript env p = Some pl"
  shows "map_of (scriptPlugins st') p \<noteq> None"
  using assms
  by (auto simp: scriptDirective_def buildDirective_def truthyEntry_def Let_def map_add_def
      split: option.splits if_splits)

lemma loadScripts_keeps_key:
  "loadScripts env st ds = Inr st' \<Longrightarrow> map_of (scriptPlugins st) k \<noteq> None
     \<Longrightarrow> map_of (scriptPlugins st') k \<noteq> None"
proof (induction ds arbitrary: st)
  case Nil
  then show ?case by simp
next
  case (Cons d ds)
  from Cons.prems(1) obtain st1 where s1: "scriptDirective env st d = Inr st1"
    and rest: "loadScripts env st1 ds = Inr st'"
    by (auto split: sum.splits)
  from scriptDirective_keeps_key [OF s1 Cons.prems(2)] Cons.IH [OF rest] show ?case by blast
qed

lemma loadScripts_registers:
  assumes "loadScripts env st ds = Inr st'"
      and "(target, p) \<in> set ds"
      and "parseScript target = Inr parsed" and "scriptType parsed = ''build''"
      and "loadPluginFromScript env p = Some pl"
  shows "map_of (scriptPlugins st') p \<noteq> None"
  using assms(1,2)
proof (induction ds arbitrary: st)
  case Nil
  then show ?case by simp
next
  case (Cons d ds)
  from Cons.prems(1) obtain st1 where s1: "scriptDirective env st d = Inr st1"
    and rest: "loadScripts env st1 ds = Inr st'"
    by (auto split: sum.splits)
  show ?case
  proof (cases "d = (target, p)")
    case True
    with s1 have "map_of (scriptPlugins st1) p \<noteq> None"
      using scriptDirective_build_registers assms(3-5) by blast
    then show ?thesis using loadScripts_keeps_key [OF rest] by blast
  next
    case False
    with Cons.prems(2) have "(target, p) \<in> set ds" by simp
    then show ?thesis using Cons.IH [OF rest] by blast
  qed
qed

lemma loadScripts_plugins:
  "loadScripts env st ds = Inr st' \<Longrightarrow> plugins st' = plugins st"
proof (induction ds arbitrary: st)
  case Nil
  then show ?case by simp
next
  case (Cons d ds)
  from Cons.prems obtain st1 where s1: "scriptDirective env st d = Inr st1"
    and rest: "loadScripts env st1 ds = Inr st'"
    by (auto split: sum.splits)
  then show ?case using scriptDirective_plugins [OF s1] Cons.IH [OF rest] by simp
qed

text \<open>
  Every registered script plugin is named after its specifier and carries the extensions
  of its directive, provided the loader finds no plugin under the empty specifier.
\<close>

lemma loadScripts_scriptPlugins_inv:
  assumes "loadScripts env st ds = Inr st'"
      and "loadPluginFromScript env [] = None"
      and "\<forall>(k, pl) \<in> set (scriptPlugins st).
             k \<noteq> [] \<and> name pl = Some k \<and> (\<exists>xs. input pl = Some (Many xs) \<and> xs \<noteq> [])"
  shows "\<forall>(k, pl) \<in> set (scriptPlugins st').
           k \<noteq> [] \<and> name pl = Some k \<and> (\<exists>xs. input pl = Some (Many xs) \<and> xs \<noteq> [])"
  using assms(1,3)
proof (induction ds arbitrary: st)
  case Nil
  then show ?case by simp
next
  case (Cons d ds)
  from Cons.prems(1) obtain st1 where s1: "scriptDirective env st d = Inr st1"
    and rest: "loadScripts env st1 ds = Inr st'"
    by (auto split: sum.splits)
  have "\<forall>(k, pl) \<in> set (scriptPlugins st1).
          k \<noteq> [] \<and> name pl = Some k \<and> (\<exists>xs. input pl = Some (Many xs) \<and> xs \<noteq> [])"
    using scriptDirective_scriptPlugins [OF s1]
  proof
    assume "scriptPlugins st1 = scriptPlugins st"
    with Cons.prems(2) show ?thesis by simp
  next
    assume "\<exists>parsed pl. parseScript (fst d) = Inr parsed
              \<and> loadPluginFromScript env (snd d) = Some pl
              \<and> scriptPlugins st1 = scriptPlugins st @
                   [(snd d, pl\<lparr>name := Some (snd d), input := Some (Many (extensions parsed)),
                                 output := Some (Many (extensions parsed))\<rparr>)]"
    then obtain parsed pl where ps: "parseScript (fst d) = Inr parsed"
      and ld: "loadPluginFromScript env (snd d) = Some pl"
      and sp: "scriptPlugins st1 = scriptPlugins st @
                   [(snd d, pl\<lparr>name := Some (snd d), input := Some (Many (extensions parsed)),
                                 output := Some (Many (extensions parsed))\<rparr>)]"
      by blast
    from ld assms(2) have "snd d \<noteq> []" by auto
    moreover from ps have "extensions parsed \<noteq> []" by (rule parseScript_extensions_not_Nil)
    ultimately show ?thesis using sp Cons.prems(2) by auto
  qed
  then show ?case using Cons.IH [OF rest] by blast
qed

lemma afterScripts_scriptPlugins: "scriptPlugins (afterScripts env config st) = scriptPlugins st"
  by (simp add: afterScripts_def Let_def)

lemma afterScripts_plugins:
  "plugins (afterScripts env config st) = plugins st @ map snd (scriptPlugins st)"
  by (simp add: afterScripts_def Let_def)

section \<open>The plugins of the configuration\<close>

lemma configPlugin_loaded_in_both:
  "map_of (scriptPlugins st) (refName r) \<noteq> None
     \<Longrightarrow> configPlugin env st r = Inl (LoadedInBoth (refName r))"
  by (simp add: configPlugin_def truthyEntry_def)

text \<open>No entry of \<^verbatim>\<open>config.plugins\<close> gets past the test of \<^verbatim>\<open>name\<close>.\<close>

lemma configPlugin_aborts: "\<exists>e. configPlugin env st r = Inl e"
  by (auto simp: configPlugin_def name_identifier_def Let_def split: sum.splits)

lemma configPlugin_scriptPlugins:
  "configPlugin env st r = Inr st' \<Longrightarrow> scriptPlugins st' = scriptPlugins st"
  using configPlugin_aborts [of env st r] by auto

lemma loadConfigPlugins_append:
  "loadConfigPlugins env st (xs @ ys) =
     (case loadConfigPlugins env st xs of
        Inl e \<Rightarrow> Inl e
      | Inr st' \<Rightarrow> loadConfigPlugins env st' ys)"
  by (induction xs arbitrary: st) (auto split: sum.splits)

lemma loadConfigPlugins_scriptPlugins:
  "loadConfigPlugins env st rs = Inr st' \<Longrightarrow> scriptPlugins st' = scriptPlugins st"
proof (induction rs arbitrary: st)
  case Nil
  then show ?case by simp
next
  case (Cons r rs)
  from Cons.prems obtain st1 where s1: "configPlugin env st r = Inr st1"
    and rest: "loadConfigPlugins env st1 rs = Inr st'"
    by (auto split: sum.splits)
  then show ?case using configPlugin_scriptPlugins [OF s1] Cons.IH [OF rest] by simp
qed

lemma loadConfigPlugins_Inr_Nil:
  "loadConfigPlugins env st rs = Inr st' \<Longrightarrow> rs = [] \<and> st' = st"
  using configPlugin_aborts [of env st "hd rs"] by (cases rs) (auto split: sum.splits)

section \<open>Claims about the script directives\<close>

lemma parseScript_build_js:
  "parseScript ''build:js'' = Inr \<lparr>scriptType = ''build'', extensions = [''js'']\<rparr>"
  by code_simp

lemma parseScript_build_jsx:
  "parseScript ''build:jsx'' = Inr \<lparr>scriptType = ''build'', extensions = [''jsx'']\<rparr>"
  by code_simp

lemma parseScript_mount_public:
  "parseScript ''mount:public'' = Inr \<lparr>scriptType = ''mount'', extensions = [''public'']\<rparr>"
  by code_simp

lemma split_ws_copy_public: "split_ws ''copy public'' = [''copy'', ''public'']"
  by code_simp

lemma regular_example_names:
  "\<not> inheritedName ''my-plugin''" "\<not> inheritedName ''named-plugin''"
  "\<not> inheritedName ''js''" "\<not> inheritedName ''.svelte''" "\<not> inheritedName ''.js''"
  "inheritedName ''constructor''"
  by (simp_all add: inheritedName_def objectPrototypeNames_def)

text \<open>
  C1. Two \<^verbatim>\<open>build:\<close> directives naming the same plugin are to give one plugin entry
  with the extensions of both. The code does not get that far: the second directive
  reads \<^verbatim>\<open>loadPlugins[pluginName]\<close> instead of \<^verbatim>\<open>scriptPlugins[pluginName]\<close> and throws a
  \<^verbatim>\<open>TypeError\<close>, so \<^verbatim>\<open>loadPlugins\<close> returns nothing.
\<close>

theorem second_build_directive_for_plugin_throws:
  "loadPlugins exampleEnv
     \<lparr>scripts = [(''build:js'', ''my-plugin''), (''build:jsx'', ''my-plugin'')],
      config_plugins = []\<rparr> = Inl TypeError"
  by (simp add: loadPlugins_def initialState_def directive_defs example_defs
      regular_example_names parseScript_build_js parseScript_build_jsx)

text \<open>
  Script plugins. When \<^verbatim>\<open>loadPlugins\<close> returns, every plugin of the returned list has an
  \<^verbatim>\<open>input\<close> with at least one extension and a name that is not empty, provided the loader
  resolves nothing under the empty specifier. The returned plugins are script plugins:
  see \<open>loadConfigPlugins_Inr_Nil\<close>.
\<close>

lemma script_plugins_have_input_and_name:
  assumes "loadPluginFromScript env [] = None"
      and "loadPlugins env config = Inr res"
      and "plugin \<in> set (plugins res)"
  shows "(\<exists>xs. input plugin = Some (Many xs) \<and> xs \<noteq> [])
       \<and> (\<exists>n. name plugin = Some n \<and> n \<noteq> [])"
proof -
  from assms(2) obtain st st' where
    ls: "loadScripts env initialState (scripts config) = Inr st"
    and lc: "loadConfigPlugins env (afterScripts env config st) (config_plugins config) = Inr st'"
    and res: "res = returned st'"
    by (auto simp: loadPlugins_def split: sum.splits)
  from lc have st': "st' = afterScripts env config st"
    by (auto dest: loadConfigPlugins_Inr_Nil)
  have "plugins st = []"
    using loadScripts_plugins [OF ls] by (simp add: initialState_def)
  then have "plugins res = map snd (scriptPlugins st)"
    using res st' by (simp add: returned_def afterScripts_plugins)
  with assms(3) obtain k where k: "(k, plugin) \<in> set (scriptPlugins st)" by auto
  have "\<forall>(k, pl) \<in> set (scriptPlugins st).
          k \<noteq> [] \<and> name pl = Some k \<and> (\<exists>xs. input pl = Some (Many xs) \<and> xs \<noteq> [])"
    using loadScripts_scriptPlugins_inv [OF ls assms(1)] by (simp add: initialState_def)
  with k show ?thesis by auto
qed

text \<open>
  C5. With no \<^verbatim>\<open>mount:web_modules\<close> directive the mount list is to hold one entry for
  the dependency directory, mapped to \<^verbatim>\<open>/web_modules/\<close>. The code adds the one entry, but
  with the URL \<^verbatim>\<open>/web_modules\<close>, which has no separator at its end; nor is \<^verbatim>\<open>fromDisk\<close>
  given one. A declared mount goes through \<^verbatim>\<open>normalize(... + '/')\<close>, this one does not.
\<close>

theorem default_mount_has_no_trailing_separator:
  "loadPlugins env \<lparr>scripts = [], config_plugins = []\<rparr>
     = Inr \<lparr>plugins = [], bundler = None, runCommands = [], buildCommands = Map.empty,
            mountedDirs = [\<lparr>md_id = ''mount:web_modules'',
                            fromDisk = DEV_DEPENDENCIES_DIR env,
                            toUrl = ''/web_modules''\<rparr>]\<rparr>"
  by (simp add: loadPlugins_def initialState_def afterScripts_def returned_def defaultMount_def
      truthyString_def)

section \<open>Claims about the mount command\<close>

lemma split_ws_mount_src: "split_ws ''mount src'' = ''mount'' # ''src'' # []"
  by code_simp

lemma split_ws_mount_src_to_app:
  "split_ws ''mount src --to /app'' = ''mount'' # ''src'' # [''--to'', ''/app'']"
  by code_simp

lemma posixNormalize_examples:
  "posixNormalize ''src/'' = ''src/''"
  "posixNormalize ''/app/'' = ''/app/''"
  "posixNormalize ''/src/'' = ''/src/''"
  "posixNormalize ''/project/node_modules/.cache/snowpack/dev/''
     = ''/project/node_modules/.cache/snowpack/dev/''"
  by code_simp+

text \<open>
  C7, as the claim has it: every well-formed mount command gives
  \<^verbatim>\<open>fromDisk = normalize(dir + "/")\<close>. Under the id \<^verbatim>\<open>mount:web_modules\<close> it does not: the
  command \<^verbatim>\<open>mount src\<close> gives the dependency directory, not \<^verbatim>\<open>src/\<close>.
\<close>

theorem reserved_mount_ignores_directory:
  "mountDirective exampleEnv ''mount:web_modules'' ''mount src'' initialState =
     Inr (initialState\<lparr>mountedDirs :=
            [\<lparr>md_id = ''mount:web_modules'',
              fromDisk = ''/project/node_modules/.cache/snowpack/dev/'',
              toUrl = ''/src/''\<rparr>]\<rparr>)
   \<and> normalize exampleEnv (''src'' @ ''/'') = ''src/''"
  unfolding mountDirective_def split_ws_mount_src
  by (simp add: exampleEnv_def truthyString_def posixNormalize_examples initialState_def)

text \<open>
  C7, amended. Let the command be \<^verbatim>\<open>mount\<close>, then the directory, then what else there
  is; let the argument parser report that directory as the one positional argument, and
  \<^verbatim>\<open>--to\<close> as absent or as a path that starts with a slash. Then the directive adds one
  entry under its id, with \<^verbatim>\<open>toUrl = normalize((to, or "/" + dir) + "/")\<close> and with
  \<^verbatim>\<open>fromDisk = normalize(dir + "/")\<close>, except that under the id \<^verbatim>\<open>mount:web_modules\<close>
  \<^verbatim>\<open>fromDisk\<close> is \<^verbatim>\<open>normalize(DEV_DEPENDENCIES_DIR + "/")\<close>.
\<close>

theorem mountDirective_well_formed:
  assumes "split_ws c = ''mount'' # dir # rest"
      and "yargs env (dir # rest) = \<lparr>to = t, positional = [dir]\<rparr>"
      and "t = None \<or> (\<exists>u. t = Some (CHR ''/'' # u))"
  shows "mountDirective env target c st =
           Inr (st\<lparr>mountedDirs := mountedDirs st @
                  [\<lparr>md_id = target,
                    fromDisk = normalize env
                      ((if target = ''mount:web_modules'' then DEV_DEPENDENCIES_DIR env else dir)
                       @ ''/''),
                    toUrl = normalize env
                      ((case t of None \<Rightarrow> ''/'' @ dir | Some u \<Rightarrow> u) @ ''/'')\<rparr>]\<rparr>)"
  using assms by (auto simp: mountDirective_def Let_def truthyString_def)

theorem mountDirective_well_formed_witness:
  "split_ws ''mount src --to /app'' = ''mount'' # ''src'' # [''--to'', ''/app'']
   \<and> yargs exampleEnv (''src'' # [''--to'', ''/app''])
       = \<lparr>to = Some ''/app'', positional = [''src'']\<rparr>
   \<and> mountDirective exampleEnv ''mount:foo'' ''mount src --to /app'' initialState =
       Inr (initialState\<lparr>mountedDirs :=
              [\<lparr>md_id = ''mount:foo'', fromDisk = ''src/'', toUrl = ''/app/''\<rparr>]\<rparr>)
   \<and> split_ws ''mount src'' = ''mount'' # ''src'' # []
   \<and> yargs exampleEnv (''src'' # []) = \<lparr>to = None, positional = [''src'']\<rparr>
   \<and> mountDirective exampleEnv ''mount:foo'' ''mount src'' initialState =
       Inr (initialState\<lparr>mountedDirs :=
              [\<lparr>md_id = ''mount:foo'', fromDisk = ''src/'', toUrl = ''/src/''\<rparr>]\<rparr>)"
proof -
  note a1 = split_ws_mount_src_to_app
  have a2: "yargs exampleEnv (''src'' # [''--to'', ''/app''])
              = \<lparr>to = Some ''/app'', positional = [''src'']\<rparr>"
    by (simp add: exampleEnv_def)
  have a3: "Some ''/app'' = None \<or> (\<exists>u. Some ''/app'' = Some (CHR ''/'' # u))"
    by simp
  note b1 = split_ws_mount_src
  have b2: "yargs exampleEnv (''src'' # []) = \<lparr>to = None, positional = [''src'']\<rparr>"
    by (simp add: exampleEnv_def)
  have b3: "(None :: string option) = None
              \<or> (\<exists>u. (None :: string option) = Some (CHR ''/'' # u))"
    by simp
  have n: "normalize exampleEnv = posixNormalize"
    by (simp add: exampleEnv_def)
  have c1: "mountDirective exampleEnv ''mount:foo'' ''mount src --to /app'' initialState =
       Inr (initialState\<lparr>mountedDirs :=
              [\<lparr>md_id = ''mount:foo'', fromDisk = ''src/'', toUrl = ''/app/''\<rparr>]\<rparr>)"
    using mountDirective_well_formed [OF a1 a2 a3, of "''mount:foo''" initialState]
    by (simp add: n posixNormalize_examples initialState_def)
  have c2: "mountDirective exampleEnv ''mount:foo'' ''mount src'' initialState =
       Inr (initialState\<lparr>mountedDirs :=
              [\<lparr>md_id = ''mount:foo'', fromDisk = ''src/'', toUrl = ''/src/''\<rparr>]\<rparr>)"
    using mountDirective_well_formed [OF b1 b2 b3, of "''mount:foo''" initialState]
    by (simp add: n posixNormalize_examples initialState_def)
  show ?thesis
    by (intro conjI a1 a2 c1 b1 b2 c2)
qed

section \<open>Claims about the plugins of the configuration\<close>

text \<open>
  C4. A plugin of \<^verbatim>\<open>config.plugins\<close> that declares a name is to keep it. The code tests
  \<^verbatim>\<open>name\<close>, not \<^verbatim>\<open>plugin.name\<close>; the identifier is unbound and the test throws a
  \<^verbatim>\<open>ReferenceError\<close>, whatever name the plugin declares.
\<close>

theorem configured_plugin_with_name_throws:
  "loadPlugins exampleEnv \<lparr>scripts = [], config_plugins = [Bare ''named-plugin'']\<rparr>
     = Inl ReferenceError"
  by (simp add: loadPlugins_def initialState_def afterScripts_def configPlugin_def example_defs
      refName_def refOptions_def truthyString_def truthyExt_def backfillInput_def
      name_identifier_def truthyEntry_def regular_example_names)

text \<open>
  The test for a missing \<^verbatim>\<open>input\<close> is \<^verbatim>\<open>!plugin.input\<close>, and an empty array is truthy: a
  plugin that declares \<^verbatim>\<open>input: []\<close> is not refused for want of input options.
\<close>

lemma empty_input_is_not_missing:
  assumes "\<not> truthyEntry (scriptPlugins st) (refName r)"
      and "requirePlugin env (refName r) (Some (refOptions r)) = Some plugin"
      and "input plugin = Some (Many [])"
  shows "configPlugin env st r = Inl ReferenceError"
  using assms
  by (simp add: configPlugin_def loadPluginFromConfig_def truthyExt_def backfillInput_def
      name_identifier_def)



text \<open>
  C8, as the claim has it: a specifier that a \<^verbatim>\<open>build:\<close> directive has loaded and that
  stands in \<^verbatim>\<open>config.plugins\<close> too ends the pass with the error for a plugin loaded in
  both. Here it ends with the error of a mount directive, which comes first.
\<close>

theorem earlier_error_comes_first:
  "loadPlugins exampleEnv
     \<lparr>scripts = [(''build:js'', ''my-plugin''), (''mount:public'', ''copy public'')],
      config_plugins = [Bare ''my-plugin'']\<rparr> = Inl (MustUseMountCommand ''mount:public'')"
  by (simp add: loadPlugins_def initialState_def directive_defs example_defs
      regular_example_names parseScript_build_js parseScript_mount_public split_ws_copy_public)

text \<open>
  C8, amended. Let a \<^verbatim>\<open>build:\<close> directive name a specifier that the loader resolves, and
  let the specifier stand in \<^verbatim>\<open>config.plugins\<close> too. Then \<^verbatim>\<open>loadPlugins\<close> returns no result.
  The error is the one met first: that of the script directives if one of them fails,
  else that of the entries of \<^verbatim>\<open>config.plugins\<close> before the specifier if one of them
  fails, else the error for a plugin loaded in both \<^verbatim>\<open>scripts\<close> and \<^verbatim>\<open>plugins\<close>.
\<close>

theorem same_specifier_in_scripts_and_plugins:
  assumes "(target, p) \<in> set (scripts config)"
      and "parseScript target = Inr parsed" and "scriptType parsed = ''build''"
      and "loadPluginFromScript env p = Some plugin"
      and "p \<in> set (map refName (config_plugins config))"
  shows "loadPlugins env config =
           (case loadScripts env initialState (scripts config) of
              Inl e \<Rightarrow> Inl e
            | Inr st \<Rightarrow>
                (case loadConfigPlugins env (afterScripts env config st)
                        (takeWhile (\<lambda>r. refName r \<noteq> p) (config_plugins config)) of
                   Inl e \<Rightarrow> Inl e
                 | Inr st' \<Rightarrow> Inl (LoadedInBoth p)))"
proof (cases "loadScripts env initialState (scripts config)")
  case (Inl e)
  then show ?thesis by (simp add: loadPlugins_def)
next
  case (Inr st)
  let ?pre = "takeWhile (\<lambda>r. refName r \<noteq> p) (config_plugins config)"
  let ?post = "dropWhile (\<lambda>r. refName r \<noteq> p) (config_plugins config)"
  have key: "map_of (scriptPlugins st) p \<noteq> None"
    using loadScripts_registers [OF Inr assms(1-4)] .
  from assms(5) have ne: "?post \<noteq> []"
    by (auto simp: dropWhile_eq_Nil_conv)
  then obtain r rest where post: "?post = r # rest"
    by (cases ?post) auto
  have r: "refName r = p"
    using hd_dropWhile [OF ne] post by simp
  have split: "config_plugins config = ?pre @ r # rest"
    using post takeWhile_dropWhile_id [of "\<lambda>r. refName r \<noteq> p" "config_plugins config"] by simp
  show ?thesis
  proof (cases "loadConfigPlugins env (afterScripts env config st) ?pre")
    case (Inl e)
    then have "loadConfigPlugins env (afterScripts env config st) (config_plugins config) = Inl e"
      using loadConfigPlugins_append [of env "afterScripts env config st" ?pre "r # rest"] split
      by simp
    then show ?thesis using Inr Inl by (simp add: loadPlugins_def)
  next
    case inr: (Inr st')
    have "scriptPlugins st' = scriptPlugins st"
      using loadConfigPlugins_scriptPlugins [OF inr] by (simp add: afterScripts_scriptPlugins)
    then have "configPlugin env st' r = Inl (LoadedInBoth p)"
      using configPlugin_loaded_in_both [of st' r env] key r by simp
    then have "loadConfigPlugins env (afterScripts env config st) (config_plugins config)
                 = Inl (LoadedInBoth p)"
      using loadConfigPlugins_append [of env "afterScripts env config st" ?pre "r # rest"]
        split inr
      by simp
    then show ?thesis using Inr inr by (simp add: loadPlugins_def)
  qed
qed

theorem same_specifier_in_scripts_and_plugins_witness:
  "(''build:js'', ''my-plugin'') \<in> set [(''build:js'', ''my-plugin'')]
   \<and> parseScript ''build:js'' = Inr \<lparr>scriptType = ''build'', extensions = [''js'']\<rparr>
   \<and> loadPluginFromScript exampleEnv ''my-plugin'' = Some examplePlugin
   \<and> ''my-plugin'' \<in> set (map refName [Bare ''my-plugin''])
   \<and> loadPlugins exampleEnv
       \<lparr>scripts = [(''build:js'', ''my-plugin'')], config_plugins = [Bare ''my-plugin'']\<rparr>
       = Inl (LoadedInBoth ''my-plugin'')"
proof -
  let ?config = "\<lparr>scripts = [(''build:js'', ''my-plugin'')],
                  config_plugins = [Bare ''my-plugin'']\<rparr>"
  have h1: "(''build:js'', ''my-plugin'') \<in> set (scripts ?config)"
    by simp
  note h2 = parseScript_build_js
  have h3: "scriptType \<lparr>scriptType = ''build'', extensions = [''js'']\<rparr> = ''build''"
    by simp
  have h4: "loadPluginFromScript exampleEnv ''my-plugin'' = Some examplePlugin"
    by (simp add: example_defs)
  have h5: "''my-plugin'' \<in> set (map refName (config_plugins ?config))"
    by (simp add: refName_def)
  have ls: "loadScripts exampleEnv initialState (scripts ?config) =
              Inr (initialState\<lparr>scriptPlugins :=
                     [(''my-plugin'',
                       examplePlugin\<lparr>name := Some ''my-plugin'', input := Some (Many [''js'']),
                                      output := Some (Many [''js''])\<rparr>)]\<rparr>)"
    by (simp add: initialState_def directive_defs example_defs regular_example_names
        parseScript_build_js)
  have c: "loadPlugins exampleEnv ?config = Inl (LoadedInBoth ''my-plugin'')"
    using same_specifier_in_scripts_and_plugins [OF h1 h2 h3 h4 h5]
    unfolding ls by (simp add: refName_def)
  from h1 h2 h4 h5 c show ?thesis
    by (simp add: refName_def)
qed

section \<open>Claims about the pipeline\<close>

lemma parseScript_build_constructor:
  "parseScript ''build:constructor''
     = Inr \<lparr>scriptType = ''build'', extensions = [''constructor'']\<rparr>"
  by code_simp

text \<open>
  Where no extension is a name that \<^verbatim>\<open>Object.prototype\<close> holds, indexing goes through, and
  the pipeline holds under an extension the plugins that have it among their inputs, in
  the order of the list, each once for every time the extension stands in its inputs.
\<close>

lemma pushPlugin_regular:
  "\<not> inheritedName ext \<Longrightarrow>
     pushPlugin plugin ext pipeline = Inr (pipeline(ext \<mapsto> sequenceOf pipeline ext @ [plugin]))"
  by (simp add: pushPlugin_def sequenceOf_def split: option.splits)

lemma pushAll_regular:
  assumes "\<forall>e \<in> set exts. \<not> inheritedName e"
  shows "\<exists>pipeline'. pushAll plugin exts pipeline = Inr pipeline'
           \<and> (\<forall>x. sequenceOf pipeline' x
                      = sequenceOf pipeline x @ replicate (count_list exts x) plugin)
           \<and> (\<forall>x. x \<notin> set exts \<longrightarrow> pipeline' x = pipeline x)
           \<and> (\<forall>x \<in> set exts. pipeline' x \<noteq> None)"
  using assms
proof (induction exts arbitrary: pipeline)
  case Nil
  then show ?case by simp
next
  case (Cons e es)
  let ?p1 = "pipeline(e \<mapsto> sequenceOf pipeline e @ [plugin])"
  have step: "pushPlugin plugin e pipeline = Inr ?p1"
    using Cons.prems by (simp add: pushPlugin_regular)
  from Cons.prems have "\<forall>e \<in> set es. \<not> inheritedName e" by simp
  from Cons.IH [OF this, of ?p1] obtain p2 where
    run: "pushAll plugin es ?p1 = Inr p2"
    and sq: "\<forall>x. sequenceOf p2 x = sequenceOf ?p1 x @ replicate (count_list es x) plugin"
    and same: "\<forall>x. x \<notin> set es \<longrightarrow> p2 x = ?p1 x"
    and dom: "\<forall>x \<in> set es. p2 x \<noteq> None"
    by blast
  have "pushAll plugin (e # es) pipeline = Inr p2"
    using step run by simp
  moreover have "\<forall>x. sequenceOf p2 x
                   = sequenceOf pipeline x @ replicate (count_list (e # es) x) plugin"
    using sq by (simp add: sequenceOf_def)
  moreover have "\<forall>x. x \<notin> set (e # es) \<longrightarrow> p2 x = pipeline x"
    using same by simp
  moreover have "\<forall>x \<in> set (e # es). p2 x \<noteq> None"
    using dom same by (metis fun_upd_same option.simps(3) set_ConsD)
  ultimately show ?case by blast
qed

lemma indexAll_regular:
  assumes "\<forall>p \<in> set ps. \<forall>e \<in> set (pluginInputs p). \<not> inheritedName e"
  shows "\<exists>pipeline'. indexAll ps pipeline = Inr pipeline'
           \<and> (\<forall>x. sequenceOf pipeline' x = sequenceOf pipeline x @ occurrences x ps)
           \<and> (\<forall>x. (\<forall>p \<in> set ps. x \<notin> set (pluginInputs p)) \<longrightarrow> pipeline' x = pipeline x)
           \<and> (\<forall>p \<in> set ps. \<forall>x \<in> set (pluginInputs p). pipeline' x \<noteq> None)"
  using assms
proof (induction ps arbitrary: pipeline)
  case Nil
  then show ?case by (simp add: occurrences_def)
next
  case (Cons q qs)
  from Cons.prems have "\<forall>e \<in> set (pluginInputs q). \<not> inheritedName e" by simp
  from pushAll_regular [OF this, of q pipeline] obtain p1 where
    run1: "indexPlugin pipeline q = Inr p1"
    and sq1: "\<forall>x. sequenceOf p1 x
                = sequenceOf pipeline x @ replicate (count_list (pluginInputs q) x) q"
    and same1: "\<forall>x. x \<notin> set (pluginInputs q) \<longrightarrow> p1 x = pipeline x"
    and dom1: "\<forall>x \<in> set (pluginInputs q). p1 x \<noteq> None"
    unfolding indexPlugin_def by blast
  from Cons.prems have "\<forall>p \<in> set qs. \<forall>e \<in> set (pluginInputs p). \<not> inheritedName e" by simp
  from Cons.IH [OF this, of p1] obtain p2 where
    run2: "indexAll qs p1 = Inr p2"
    and sq2: "\<forall>x. sequenceOf p2 x = sequenceOf p1 x @ occurrences x qs"
    and same2: "\<forall>x. (\<forall>p \<in> set qs. x \<notin> set (pluginInputs p)) \<longrightarrow> p2 x = p1 x"
    and dom2: "\<forall>p \<in> set qs. \<forall>x \<in> set (pluginInputs p). p2 x \<noteq> None"
    by blast
  have "indexAll (q # qs) pipeline = Inr p2"
    using run1 run2 by simp
  moreover have "\<forall>x. sequenceOf p2 x = sequenceOf pipeline x @ occurrences x (q # qs)"
    using sq1 sq2 by (simp add: occurrences_def)
  moreover have "\<forall>x. (\<forall>p \<in> set (q # qs). x \<notin> set (pluginInputs p)) \<longrightarrow> p2 x = pipeline x"
    using same1 same2 by simp
  moreover have "\<forall>p \<in> set (q # qs). \<forall>x \<in> set (pluginInputs p). p2 x \<noteq> None"
  proof (intro ballI)
    fix p x assume p: "p \<in> set (q # qs)" and x: "x \<in> set (pluginInputs p)"
    show "p2 x \<noteq> None"
    proof (cases "\<exists>p' \<in> set qs. x \<in> set (pluginInputs p')")
      case True
      then show ?thesis using dom2 by blast
    next
      case False
      then have "p = q" using p x by auto
      moreover from False have "p2 x = p1 x" using same2 by blast
      ultimately show ?thesis using dom1 x by simp
    qed
  qed
  ultimately show ?case by blast
qed

lemma count_list_distinct:
  "distinct xs \<Longrightarrow> count_list xs x = (if x \<in> set xs then 1 else 0)"
  by (induction xs) auto

lemma occurrences_distinct:
  assumes "\<forall>p \<in> set ps. distinct (pluginInputs p)"
  shows "occurrences x ps = filter (\<lambda>p. x \<in> set (pluginInputs p)) ps"
  using assms
proof (induction ps)
  case Nil
  then show ?case by (simp add: occurrences_def)
next
  case (Cons q qs)
  have "count_list (pluginInputs q) x = (if x \<in> set (pluginInputs q) then 1 else 0)"
    using Cons.prems by (simp add: count_list_distinct)
  then show ?case using Cons by (simp add: occurrences_def)
qed

lemma set_occurrences: "set (occurrences x ps) = {p \<in> set ps. x \<in> set (pluginInputs p)}"
  by (auto simp: occurrences_def count_list_0_iff)

lemma createBuildPipeline_regular:
  assumes "\<forall>p \<in> set ps. \<forall>e \<in> set (pluginInputs p). \<not> inheritedName e"
  shows "\<exists>pipeline. createBuildPipeline ps = Inr pipeline
           \<and> (\<forall>x. pipeline x =
                 (if \<exists>p \<in> set ps. x \<in> set (pluginInputs p) then Some (occurrences x ps)
                  else None))"
proof -
  from indexAll_regular [OF assms, of Map.empty] obtain pl where
    run: "indexAll ps Map.empty = Inr pl"
    and sq: "\<forall>x. sequenceOf pl x = sequenceOf Map.empty x @ occurrences x ps"
    and same: "\<forall>x. (\<forall>p \<in> set ps. x \<notin> set (pluginInputs p)) \<longrightarrow> pl x = Map.empty x"
    and dom: "\<forall>p \<in> set ps. \<forall>x \<in> set (pluginInputs p). pl x \<noteq> None"
    by blast
  have "\<forall>x. pl x =
          (if \<exists>p \<in> set ps. x \<in> set (pluginInputs p) then Some (occurrences x ps) else None)"
  proof
    fix x
    show "pl x =
          (if \<exists>p \<in> set ps. x \<in> set (pluginInputs p) then Some (occurrences x ps) else None)"
    proof (cases "\<exists>p \<in> set ps. x \<in> set (pluginInputs p)")
      case True
      then obtain seq where "pl x = Some seq" using dom by fastforce
      moreover have "sequenceOf pl x = occurrences x ps"
        using sq by (simp add: sequenceOf_def)
      ultimately show ?thesis using True by (simp add: sequenceOf_def)
    next
      case False
      then show ?thesis using same by simp
    qed
  qed
  with run show ?thesis by (simp add: createBuildPipeline_def)
qed

text \<open>
  C9. The indexer is to map each extension to the plugins whose input has it, for every
  plugin list. The pipeline is a plain object, and under an extension that names a
  property of \<^verbatim>\<open>Object.prototype\<close> the code finds that property, calls its missing
  \<^verbatim>\<open>push\<close> and throws a \<^verbatim>\<open>TypeError\<close>. The directive \<^verbatim>\<open>build:constructor\<close> leads there:
  \<^verbatim>\<open>loadPlugins\<close> returns its plugin with the input \<^verbatim>\<open>constructor\<close>, and no pipeline comes
  of the returned list.
\<close>

theorem createBuildPipeline_throws_on_inherited_name:
  "loadPlugins exampleEnv \<lparr>scripts = [(''build:constructor'', ''my-plugin'')], config_plugins = []\<rparr>
     = Inr \<lparr>plugins = [examplePlugin\<lparr>name := Some ''my-plugin'',
                                       input := Some (Many [''constructor'']),
                                       output := Some (Many [''constructor''])\<rparr>],
            bundler = None, runCommands = [], buildCommands = Map.empty,
            mountedDirs = [defaultMount exampleEnv]\<rparr>
   \<and> createBuildPipeline
        [examplePlugin\<lparr>name := Some ''my-plugin'', input := Some (Many [''constructor'']),
                       output := Some (Many [''constructor''])\<rparr>] = Inl TypeError"
proof -
  have a: "loadPlugins exampleEnv
             \<lparr>scripts = [(''build:constructor'', ''my-plugin'')], config_plugins = []\<rparr>
     = Inr \<lparr>plugins = [examplePlugin\<lparr>name := Some ''my-plugin'',
                                       input := Some (Many [''constructor'']),
                                       output := Some (Many [''constructor''])\<rparr>],
            bundler = None, runCommands = [], buildCommands = Map.empty,
            mountedDirs = [defaultMount exampleEnv]\<rparr>"
    by (simp add: loadPlugins_def initialState_def directive_defs example_defs afterScripts_def
        returned_def truthyString_def regular_example_names parseScript_build_constructor)
  have b: "createBuildPipeline
        [examplePlugin\<lparr>name := Some ''my-plugin'', input := Some (Many [''constructor'']),
                       output := Some (Many [''constructor''])\<rparr>] = Inl TypeError"
    by (simp add: createBuildPipeline_def indexPlugin_def pluginInputs_def pushPlugin_def
        regular_example_names)
  from a b show ?thesis by (rule conjI)
qed


end
